theory Spec2Isabelle
  imports Complex_Main
begin

section \<open>Python values, dictionaries and errors\<close>

text \<open>
  The program (\<^verbatim>\<open>src/__main__.py\<close>, the variant with the recency boost, lines 1 to 251)
  keeps every record in a Python \<^verbatim>\<open>dict\<close>. The values that occur are \<^verbatim>\<open>None\<close>, strings,
  integers (a duration) and, in a row read back by \<^verbatim>\<open>csv.DictReader\<close>, the list of surplus
  cells. A dictionary is an association list with distinct keys, kept in insertion order
  as Python keeps it: \<^verbatim>\<open>d[k] = x\<close> replaces the value in place when the key is present and
  appends the pair otherwise, and \<^verbatim>\<open>d.values()\<close> lists the values in that order.
\<close>

datatype pyval = PNone | PStr string | PInt int | PList "string list"

datatype pyerror = KeyError pyval | ValueError | IndexError | TypeError | EOFError

type_synonym pydict = "(pyval \<times> pyval) list"

definition dict_get :: "pydict \<Rightarrow> pyval \<Rightarrow> pyerror + pyval" where
  \<comment> \<open>\<^verbatim>\<open>d[k]\<close>: raises KeyError on a missing key\<close>
  "dict_get d k = (case map_of d k of None \<Rightarrow> Inl (KeyError k) | Some x \<Rightarrow> Inr x)"

primrec dict_set :: "('k \<times> 'v) list \<Rightarrow> 'k \<Rightarrow> 'v \<Rightarrow> ('k \<times> 'v) list" where
  \<comment> \<open>\<^verbatim>\<open>d[k] = x\<close>\<close>
  "dict_set [] k x = [(k, x)]"
| "dict_set (p # ps) k x = (if fst p = k then (k, x) # ps else p # dict_set ps k x)"

definition dict_contains :: "('k \<times> 'v) list \<Rightarrow> 'k \<Rightarrow> bool" where
  \<comment> \<open>\<^verbatim>\<open>k in d\<close>\<close>
  "dict_contains d k = (k \<in> set (map fst d))"

definition dict_values :: "('k \<times> 'v) list \<Rightarrow> 'v list" where
  \<comment> \<open>\<^verbatim>\<open>d.values()\<close>\<close>
  "dict_values d = map snd d"

definition dict_merge :: "('k \<times> 'v) list \<Rightarrow> ('k \<times> 'v) list \<Rightarrow> ('k \<times> 'v) list" where
  \<comment> \<open>\<^verbatim>\<open>a | b\<close>: a new dictionary, the pairs of \<open>b\<close> stored into a copy of \<open>a\<close>\<close>
  "dict_merge a b = fold (\<lambda>(k, x) d. dict_set d k x) b a"

section \<open>Candidates and the feedback memory\<close>

text \<open>
  A candidate video is the dictionary built by \<^verbatim>\<open>fetch_videos_yt_dlp\<close> and
  \<^verbatim>\<open>fetch_videos_ytsp\<close>, always with the same nine keys, so it is a record here;
  \<open>video_id\<close> is the key \<^verbatim>\<open>"id"\<close>. The upload date is the text \<^verbatim>\<open>YYYYMMDD\<close> or \<^verbatim>\<open>None\<close>.
  The feedback memory maps a link to the row stored for it; a row is a dictionary, since
  rows read from the file have whatever columns the file's header names.
\<close>

record video =
  keyword :: string
  title :: string
  link :: string
  video_id :: string
  channel :: string
  description :: string
  duration :: int
  upload_date :: "string option"
  language :: string

type_synonym feedback_dict = "(pyval \<times> pydict) list"

definition video_dict :: "video \<Rightarrow> pydict" where
  "video_dict v =
     [(PStr ''keyword'', PStr (keyword v)),
      (PStr ''title'', PStr (title v)),
      (PStr ''link'', PStr (link v)),
      (PStr ''id'', PStr (video_id v)),
      (PStr ''channel'', PStr (channel v)),
      (PStr ''description'', PStr (description v)),
      (PStr ''duration'', PInt (duration v)),
      (PStr ''upload_date'', (case upload_date v of None \<Rightarrow> PNone | Some d \<Rightarrow> PStr d)),
      (PStr ''language'', PStr (language v))]"

section \<open>The weight of a candidate\<close>

text \<open>
  The inner loop of \<^verbatim>\<open>pick_video\<close> (lines 183 to 190) runs over
  \<^verbatim>\<open>feedback_memory.values()\<close> with the running weight \<^verbatim>\<open>base\<close>. Reading
  \<^verbatim>\<open>fb["keyword"]\<close> or \<^verbatim>\<open>fb["feedback"]\<close> of a row without that key raises KeyError, which
  leaves \<^verbatim>\<open>pick_video\<close>.
\<close>

fun keyword_boost :: "video \<Rightarrow> pydict list \<Rightarrow> int \<Rightarrow> pyerror + int" where
  "keyword_boost v [] base = Inr base"
| "keyword_boost v (fb # fbs) base =
     (case dict_get fb (PStr ''keyword'') of
        Inl e \<Rightarrow> Inl e
      | Inr k \<Rightarrow>
          if k = PStr (keyword v) then
            (case dict_get fb (PStr ''feedback'') of
               Inl e \<Rightarrow> Inl e
             | Inr r \<Rightarrow>
                 if r = PStr ''definitely'' then keyword_boost v fbs (base + 3)
                 else if r = PStr ''maybe'' then keyword_boost v fbs (base + 1)
                 else if r = PStr ''never'' then keyword_boost v fbs 0
                 else keyword_boost v fbs base)
          else keyword_boost v fbs base)"

text \<open>
  Instants are counted in microseconds, the resolution of \<^verbatim>\<open>datetime\<close>.
  \<^verbatim>\<open>datetime.strptime(s, "%Y%m%d")\<close> belongs to the Python library: it is the parameter
  \<open>strptime\<close>, \<open>None\<close> where it raises ValueError. The clock \<^verbatim>\<open>datetime.now()\<close> is the
  parameter \<open>now\<close>. The bare \<^verbatim>\<open>except\<close> of lines 197 and 198 turns a failed parse into
  "no bonus".
\<close>

type_synonym instant = int

definition timedelta_days :: "int \<Rightarrow> int" where
  "timedelta_days d = d * 86400000000"

definition recency_boost :: "(string \<Rightarrow> instant option) \<Rightarrow> instant \<Rightarrow> video \<Rightarrow> int \<Rightarrow> int" where
  "recency_boost strptime now v base =
     (case upload_date v of
        None \<Rightarrow> base
      | Some s \<Rightarrow>
          if s = [] then base
          else (case strptime s of
                  None \<Rightarrow> base
                | Some upload_dt \<Rightarrow>
                    if upload_dt > now - timedelta_days 180 then base + 2 else base))"

definition video_weight ::
  "(string \<Rightarrow> instant option) \<Rightarrow> instant \<Rightarrow> video \<Rightarrow> feedback_dict \<Rightarrow> pyerror + int" where
  \<comment> \<open>one round of the loop of lines 180 to 199: the value appended to \<^verbatim>\<open>weights\<close>\<close>
  "video_weight strptime now v fm =
     (case keyword_boost v (dict_values fm) 1 of
        Inl e \<Rightarrow> Inl e
      | Inr base \<Rightarrow> Inr (recency_boost strptime now v base))"

text \<open>
  The words of the specification, to compare the code with: a candidate is recent when it
  has a known upload date that falls within the most recent 180 days of now, that is, when
  the date is there, parses, and its midnight is later than now less 180 days.
\<close>

definition recent :: "(string \<Rightarrow> instant option) \<Rightarrow> instant \<Rightarrow> video \<Rightarrow> bool" where
  "recent strptime now v =
     (case upload_date v of
        None \<Rightarrow> False
      | Some s \<Rightarrow> s \<noteq> [] \<and>
          (case strptime s of None \<Rightarrow> False | Some t \<Rightarrow> now - timedelta_days 180 < t))"

section \<open>The weighted draw\<close>

text \<open>
  \<^verbatim>\<open>random.choices(candidates, weights=weights, k=1)[0]\<close> is the Python library's: it
  accumulates the weights, refuses a total that is not positive, and returns the element at
  \<^verbatim>\<open>bisect(cum_weights, random() * total, 0, n - 1)\<close>. The variate \<^verbatim>\<open>random()\<close> is the
  parameter \<open>u\<close>; floating point is read as real arithmetic.
\<close>

primrec accumulate_from :: "int \<Rightarrow> int list \<Rightarrow> int list" where
  "accumulate_from t [] = []"
| "accumulate_from t (w # ws) = (t + w) # accumulate_from (t + w) ws"

definition accumulate :: "int list \<Rightarrow> int list" where
  "accumulate ws = accumulate_from 0 ws"

function bisect_right :: "int list \<Rightarrow> real \<Rightarrow> nat \<Rightarrow> nat \<Rightarrow> pyerror + nat" where
  "bisect_right a x lo hi =
     (if lo < hi then
        (let mid = (lo + hi) div 2 in
         if mid < length a then
           (if x < real_of_int (a ! mid) then bisect_right a x lo mid
            else bisect_right a x (mid + 1) hi)
         else Inl IndexError)
      else Inr lo)"
  by pat_completeness auto
termination
  by (relation "measure (\<lambda>(a, x, lo, hi). hi - lo)") auto

definition random_choices :: "'a list \<Rightarrow> int list \<Rightarrow> real \<Rightarrow> pyerror + 'a" where
  "random_choices population weights u =
     (let n = length population;
          cum_weights = accumulate weights
      in if length cum_weights \<noteq> n then Inl ValueError
         else if cum_weights = [] then Inl IndexError
         else
           (let total = real_of_int (last cum_weights)
            in if total \<le> 0 then Inl ValueError
               else (case bisect_right cum_weights (u * total) 0 (n - 1) of
                       Inl e \<Rightarrow> Inl e
                     | Inr i \<Rightarrow> if i < n then Inr (population ! i) else Inl IndexError)))"

section \<open>Picking a video\<close>

primrec compute_weights ::
  "(string \<Rightarrow> instant option) \<Rightarrow> instant \<Rightarrow> video list \<Rightarrow> feedback_dict \<Rightarrow> pyerror + int list" where
  \<comment> \<open>the loop of lines 179 to 199\<close>
  "compute_weights strptime now [] fm = Inr []"
| "compute_weights strptime now (v # vs) fm =
     (case video_weight strptime now v fm of
        Inl e \<Rightarrow> Inl e
      | Inr base \<Rightarrow>
          (case compute_weights strptime now vs fm of
             Inl e \<Rightarrow> Inl e
           | Inr weights \<Rightarrow> Inr (base # weights)))"

definition pick_video ::
  "(string \<Rightarrow> instant option) \<Rightarrow> instant \<Rightarrow> video list \<Rightarrow> feedback_dict \<Rightarrow> real
     \<Rightarrow> pyerror + video option" where
  "pick_video strptime now videos fm u =
     (let candidates = filter (\<lambda>v. \<not> dict_contains fm (PStr (link v))) videos
      in if candidates = [] then Inr None
         else
           (case compute_weights strptime now candidates fm of
              Inl e \<Rightarrow> Inl e
            | Inr weights \<Rightarrow>
                (let candidates' = map fst (filter (\<lambda>(v, w). w > 0) (zip candidates weights));
                     weights' = filter (\<lambda>w. w > 0) weights
                 in if candidates' = [] then Inr None
                    else (case random_choices candidates' weights' u of
                            Inl e \<Rightarrow> Inl e
                          | Inr v \<Rightarrow> Inr (Some v)))))"

section \<open>The feedback file\<close>

text \<open>
  The file \<^verbatim>\<open>yt_feedback.csv\<close> is held as the rows \<^verbatim>\<open>csv.reader\<close> yields for it, each a list
  of cells, the header first; \<open>None\<close> is the missing file. The quoting layer of the
  \<^verbatim>\<open>csv\<close> module lies below this model: a row written is the row read back, and a
  blank line is the row \<open>[]\<close>.

  \<^verbatim>\<open>csv.DictReader\<close> (Python library) takes the first row as the field names, passes over
  every later row that is \<open>[]\<close>, and turns a row into a dictionary: the surplus cells of a
  long row go under the key \<^verbatim>\<open>None\<close>, the missing cells of a short row are \<^verbatim>\<open>None\<close>.
\<close>

type_synonym csv_file = "string list list"

definition FIELDNAMES :: "string list" where
  "FIELDNAMES =
     [''timestamp'', ''keyword'', ''title'', ''link'', ''channel'',
      ''duration'', ''feedback'', ''summary'', ''upload_date'', ''language'']"

definition dict_reader_row :: "string list \<Rightarrow> string list \<Rightarrow> pydict" where
  "dict_reader_row fieldnames row =
     (let d = fold (\<lambda>(k, x) d. dict_set d (PStr k) (PStr x)) (zip fieldnames row) [];
          lf = length fieldnames;
          lr = length row
      in if lf < lr then dict_set d PNone (PList (drop lf row))
         else if lf > lr then fold (\<lambda>k d. dict_set d (PStr k) PNone) (drop lr fieldnames) d
         else d)"

definition dict_reader :: "csv_file \<Rightarrow> pydict list" where
  "dict_reader rows =
     (case rows of
        [] \<Rightarrow> []
      | fieldnames # rest \<Rightarrow> map (dict_reader_row fieldnames) (filter (\<lambda>row. row \<noteq> []) rest))"

fun load_rows :: "pydict list \<Rightarrow> feedback_dict \<Rightarrow> pyerror + feedback_dict" where
  \<comment> \<open>the loop of lines 144 and 145\<close>
  "load_rows [] feedback = Inr feedback"
| "load_rows (row # rows) feedback =
     (case dict_get row (PStr ''link'') of
        Inl e \<Rightarrow> Inl e
      | Inr l \<Rightarrow> load_rows rows (dict_set feedback l row))"

definition load_feedback :: "csv_file option \<Rightarrow> pyerror + feedback_dict" where
  "load_feedback file =
     (case file of
        None \<Rightarrow> Inr []
      | Some rows \<Rightarrow> load_rows (dict_reader rows) [])"

text \<open>Python's \<^verbatim>\<open>str\<close> of an integer, as the writer applies it to the duration.\<close>

function str_nat :: "nat \<Rightarrow> string" where
  "str_nat n =
     (if n < 10 then [''0123456789'' ! n]
      else str_nat (n div 10) @ [''0123456789'' ! (n mod 10)])"
  by pat_completeness auto
termination
  by (relation "measure (\<lambda>n. n)") auto

definition str_int :: "int \<Rightarrow> string" where
  "str_int i = (if i < 0 then CHR ''-'' # str_nat (nat (- i)) else str_nat (nat i))"

text \<open>
  \<^verbatim>\<open>save_feedback\<close> opens the file for appending, which creates it, writes the header
  when \<^verbatim>\<open>os.path.isfile\<close> said the file was not there, and writes one row. The dictionary
  given to \<^verbatim>\<open>writerow\<close> has exactly the field names as keys, so the row is its values in
  that order, each as the writer prints it: \<^verbatim>\<open>None\<close> as the empty cell, the duration
  through \<^verbatim>\<open>str\<close>. The text of \<^verbatim>\<open>datetime.now().isoformat()\<close> is the parameter
  \<open>timestamp\<close>.
\<close>

definition feedback_row :: "string \<Rightarrow> video \<Rightarrow> string \<Rightarrow> string option \<Rightarrow> string list" where
  "feedback_row timestamp v feedback summary =
     [timestamp, keyword v, title v, link v, channel v, str_int (duration v), feedback,
      (case summary of None \<Rightarrow> [] | Some s \<Rightarrow> s),
      (case upload_date v of None \<Rightarrow> [] | Some d \<Rightarrow> d),
      language v]"

definition save_feedback ::
  "string \<Rightarrow> csv_file option \<Rightarrow> video \<Rightarrow> string \<Rightarrow> string option \<Rightarrow> csv_file option" where
  "save_feedback timestamp file v feedback summary =
     (let file_exists = (file \<noteq> None);
          rows = (case file of None \<Rightarrow> [] | Some rows \<Rightarrow> rows);
          rows = (if \<not> file_exists then rows @ [FIELDNAMES] else rows)
      in Some (rows @ [feedback_row timestamp v feedback summary]))"


section \<open>The session loop\<close>

text \<open>
  \<^verbatim>\<open>summarize_text\<close>, and the reading of the answer: \<^verbatim>\<open>input(...).strip().lower()\<close>.
  Characters are bytes here, so \<open>py_strip\<close> and \<open>py_lower\<close> are Python's on ASCII text.
\<close>

fun split_sentences :: "string \<Rightarrow> string list" where
  \<comment> \<open>\<^verbatim>\<open>text.split(". ")\<close>\<close>
  "split_sentences [] = [[]]"
| "split_sentences [c] = [[c]]"
| "split_sentences (c # d # cs) =
     (if c = CHR ''.'' \<and> d = CHR '' '' then [] # split_sentences cs
      else (case split_sentences (d # cs) of
              [] \<Rightarrow> [[c]]
            | s # ss \<Rightarrow> (c # s) # ss))"

fun join_sentences :: "string list \<Rightarrow> string" where
  \<comment> \<open>\<^verbatim>\<open>". ".join(sentences)\<close>\<close>
  "join_sentences [] = []"
| "join_sentences [s] = s"
| "join_sentences (s # t # ss) = s @ ''. '' @ join_sentences (t # ss)"

definition summarize_text :: "string \<Rightarrow> nat \<Rightarrow> string" where
  "summarize_text text max_len =
     (let sentences = split_sentences (map (\<lambda>c. if c = CHR 0x0A then CHR '' '' else c) text);
          sentences = (if length sentences > 4 then take 4 sentences else sentences);
          summary = join_sentences sentences
      in take max_len summary @ (if length summary > max_len then ''...'' else []))"

definition is_space :: "char \<Rightarrow> bool" where
  \<comment> \<open>the ASCII characters \<^verbatim>\<open>str.isspace\<close> accepts: codes 9 to 13 and 28 to 32\<close>
  "is_space c =
     (c \<in> set [CHR 0x09, CHR 0x0A, CHR 0x0B, CHR 0x0C, CHR 0x0D,
                CHR 0x1C, CHR 0x1D, CHR 0x1E, CHR 0x1F, CHR 0x20])"

definition py_strip :: "string \<Rightarrow> string" where
  "py_strip s = rev (dropWhile is_space (rev (dropWhile is_space s)))"

definition lower_char :: "char \<Rightarrow> char" where
  "lower_char c =
     (case map_of (zip ''ABCDEFGHIJKLMNOPQRSTUVWXYZ'' ''abcdefghijklmnopqrstuvwxyz'') c of
        None \<Rightarrow> c
      | Some l \<Rightarrow> l)"

definition py_lower :: "string \<Rightarrow> string" where
  "py_lower s = map lower_char s"

text \<open>
  The state of a session is the file and the dictionary \<^verbatim>\<open>feedback_memory\<close>. One round
  of the \<^verbatim>\<open>while True\<close> loop reads from the world around it: the clock, the random
  variate, what \<^verbatim>\<open>get_transcript_summary\<close> returned and the line typed (\<open>None\<close> at the
  end of the input, where \<^verbatim>\<open>input\<close> raises EOFError).
\<close>

record session =
  feedback_file :: "csv_file option"
  feedback_memory :: feedback_dict

record world =
  clock :: instant
  clock_text :: string
  variate :: real
  transcript_summary :: "string option"
  typed :: "string option"

datatype status = ACTIVE | TERMINATED

definition video_summary :: "world \<Rightarrow> video \<Rightarrow> string" where
  \<comment> \<open>lines 220 to 222; \<^verbatim>\<open>or\<close> passes over \<^verbatim>\<open>None\<close> and the empty text\<close>
  "video_summary w v =
     (let fallback = summarize_text (if description v \<noteq> [] then description v else title v) 220
      in case transcript_summary w of
           None \<Rightarrow> fallback
         | Some t \<Rightarrow> if t \<noteq> [] then t else fallback)"

definition loop_body ::
  "(string \<Rightarrow> instant option) \<Rightarrow> video list \<Rightarrow> world \<Rightarrow> session \<Rightarrow> pyerror + (status \<times> session)" where
  "loop_body strptime videos w s =
     (case pick_video strptime (clock w) videos (feedback_memory s) (variate w) of
        Inl e \<Rightarrow> Inl e
      | Inr None \<Rightarrow> Inr (TERMINATED, s)
      | Inr (Some v) \<Rightarrow>
          (let summary = video_summary w v
           in case typed w of
                None \<Rightarrow> Inl EOFError
              | Some line \<Rightarrow>
                  (let feedback = py_lower (py_strip line)
                   in if feedback = ''quit'' then Inr (TERMINATED, s)
                      else if feedback \<in> set [''never'', ''maybe'', ''definitely'']
                      then Inr (ACTIVE,
                             \<lparr>feedback_file =
                                save_feedback (clock_text w) (feedback_file s) v feedback (Some summary),
                              feedback_memory =
                                dict_set (feedback_memory s) (PStr (link v))
                                  (dict_merge (video_dict v) [(PStr ''feedback'', PStr feedback)])\<rparr>)
                      else Inr (ACTIVE, s))))"

text \<open>
  The loop runs one round for each element of the list of worlds. When the list is used up
  before the loop has ended the run is cut off there, which is the value \<open>None\<close>.
\<close>

fun run_loop ::
  "(string \<Rightarrow> instant option) \<Rightarrow> video list \<Rightarrow> world list \<Rightarrow> session \<Rightarrow> (pyerror + session) option" where
  "run_loop strptime videos [] s = None"
| "run_loop strptime videos (w # ws) s =
     (case loop_body strptime videos w s of
        Inl e \<Rightarrow> Some (Inl e)
      | Inr (TERMINATED, s') \<Rightarrow> Some (Inr s')
      | Inr (ACTIVE, s') \<Rightarrow> run_loop strptime videos ws s')"

definition interactive_loop ::
  "(string \<Rightarrow> instant option) \<Rightarrow> video list \<Rightarrow> world list \<Rightarrow> csv_file option
     \<Rightarrow> (pyerror + session) option" where
  "interactive_loop strptime videos ws file =
     (case load_feedback file of
        Inl e \<Rightarrow> Some (Inl e)
      | Inr fm \<Rightarrow> run_loop strptime videos ws \<lparr>feedback_file = file, feedback_memory = fm\<rparr>)"

section \<open>\<^verbatim>\<open>pick_video\<close> on a store of objects\<close>

text \<open>
  Python passes the list \<^verbatim>\<open>videos\<close> and the dictionary \<^verbatim>\<open>feedback_memory\<close> by reference,
  so what \<^verbatim>\<open>pick_video\<close> leaves of them is a question about the objects. Here the
  objects live in a store, a reference is an index into it, and every statement of
  \<^verbatim>\<open>pick_video\<close> acts on the store: a list comprehension and \<^verbatim>\<open>[]\<close> allocate a new
  object, \<^verbatim>\<open>weights.append(base)\<close> writes into the object \<^verbatim>\<open>weights\<close> refers to, and the
  inner loop reads \<^verbatim>\<open>feedback_memory\<close> from the store in every round. Assigning to the
  name \<^verbatim>\<open>candidates\<close> or \<^verbatim>\<open>weights\<close> rebinds the name and writes to no object.
\<close>

datatype obj = VideoList "video list" | IntList "int list" | Dict feedback_dict

type_synonym store = "obj list"

definition lookup :: "store \<Rightarrow> nat \<Rightarrow> obj option" where
  "lookup h r = (if r < length h then Some (h ! r) else None)"

definition alloc :: "store \<Rightarrow> obj \<Rightarrow> store \<times> nat" where
  "alloc h ob = (h @ [ob], length h)"

definition list_append :: "store \<Rightarrow> nat \<Rightarrow> int \<Rightarrow> store" where
  "list_append h r x =
     (case lookup h r of
        Some (IntList xs) \<Rightarrow> h[r := IntList (xs @ [x])]
      | _ \<Rightarrow> h)"

fun weights_loop ::
  "(string \<Rightarrow> instant option) \<Rightarrow> instant \<Rightarrow> video list \<Rightarrow> nat \<Rightarrow> nat \<Rightarrow> store
     \<Rightarrow> pyerror option \<times> store" where
  "weights_loop strptime now [] memory_r weights_r h = (None, h)"
| "weights_loop strptime now (v # vs) memory_r weights_r h =
     (case lookup h memory_r of
        Some (Dict fm) \<Rightarrow>
          (case video_weight strptime now v fm of
             Inl e \<Rightarrow> (Some e, h)
           | Inr base \<Rightarrow> weights_loop strptime now vs memory_r weights_r (list_append h weights_r base))
      | _ \<Rightarrow> (Some TypeError, h))"

definition pick_video_store ::
  "(string \<Rightarrow> instant option) \<Rightarrow> instant \<Rightarrow> store \<Rightarrow> nat \<Rightarrow> nat \<Rightarrow> real
     \<Rightarrow> (pyerror + video option) \<times> store" where
  "pick_video_store strptime now h videos_r memory_r u =
     (case (lookup h videos_r, lookup h memory_r) of
        (Some (VideoList videos), Some (Dict fm)) \<Rightarrow>
          (let candidates = filter (\<lambda>v. \<not> dict_contains fm (PStr (link v))) videos;
               (h1, candidates_r) = alloc h (VideoList candidates)
           in if candidates = [] then (Inr None, h1)
              else
                (let (h2, weights_r) = alloc h1 (IntList [])
                 in case weights_loop strptime now candidates memory_r weights_r h2 of
                      (Some e, h3) \<Rightarrow> (Inl e, h3)
                    | (None, h3) \<Rightarrow>
                        (case lookup h3 weights_r of
                           Some (IntList weights) \<Rightarrow>
                             (let candidates' =
                                    map fst (filter (\<lambda>(v, w). w > 0) (zip candidates weights));
                                  (h4, candidates_r') = alloc h3 (VideoList candidates');
                                  weights' = filter (\<lambda>w. w > 0) weights;
                                  (h5, weights_r') = alloc h4 (IntList weights')
                              in if candidates' = [] then (Inr None, h5)
                                 else (case random_choices candidates' weights' u of
                                         Inl e \<Rightarrow> (Inl e, h5)
                                       | Inr v \<Rightarrow> (Inr (Some v), h5)))
                         | _ \<Rightarrow> (Inl TypeError, h3))))
      | _ \<Rightarrow> (Inl TypeError, h))"

section \<open>Sample inputs\<close>

text \<open>
  Concrete values on which the theorems below are tried. In the samples the instant 0
  is midnight of the day written \<^verbatim>\<open>20261103\<close>, and now is noon of that day.
\<close>

definition sample_strptime :: "string \<Rightarrow> instant option" where
  "sample_strptime s =
     (if s = ''20261103'' then Some 0
      else if s = ''20250101'' then Some (- timedelta_days 671)
      else None)"

definition sample_now :: instant where
  "sample_now = 43200000000"

definition sample_video :: "string \<Rightarrow> string \<Rightarrow> string option \<Rightarrow> video" where
  "sample_video kw l d =
     \<lparr>keyword = kw, title = ''A title'', link = l, video_id = ''id0'', channel = ''A channel'',
      description = ''About. Something'', duration = 100, upload_date = d, language = ''en''\<rparr>"

definition sample_row :: "string \<Rightarrow> string \<Rightarrow> string \<Rightarrow> pydict" where
  "sample_row l kw fb =
     [(PStr ''keyword'', PStr kw), (PStr ''link'', PStr l), (PStr ''feedback'', PStr fb)]"



definition sample_memory :: feedback_dict where
  "sample_memory = [(PStr ''u1'', sample_row ''u1'' ''x'' ''never'')]"



definition sample_store :: store where
  "sample_store =
     [VideoList [sample_video ''x'' ''u1'' None, sample_video ''y'' ''u3'' None],
      Dict sample_memory]"

section \<open>Properties of the weight\<close>

lemma keyword_boost_append:
  "keyword_boost v (xs @ ys) b =
     (case keyword_boost v xs b of Inl e \<Rightarrow> Inl e | Inr w \<Rightarrow> keyword_boost v ys w)"
  by (induction xs arbitrary: b) (auto split: sum.splits)

lemma keyword_boost_nonneg:
  "keyword_boost v ys b = Inr w \<Longrightarrow> 0 \<le> b \<Longrightarrow> 0 \<le> w"
  by (induction ys arbitrary: b) (auto split: sum.splits if_splits)

lemma recency_boost_eq:
  "recency_boost strptime now v base = base + (if recent strptime now v then 2 else 0)"
  by (simp add: recency_boost_def recent_def split: option.splits)

lemma video_weight_nonneg:
  "video_weight strptime now v fm = Inr w \<Longrightarrow> 0 \<le> w"
  by (auto simp: video_weight_def recency_boost_eq split: sum.splits dest: keyword_boost_nonneg)

lemma keyword_boost_mono:
  "keyword_boost v ys b = Inr w \<Longrightarrow> b \<le> b' \<Longrightarrow>
     \<exists>w'. keyword_boost v ys b' = Inr w' \<and> w \<le> w'"
proof (induction ys arbitrary: b b')
  case Nil
  then show ?case by simp
next
  case (Cons fb fbs)
  show ?case
  proof (cases "dict_get fb (PStr ''keyword'')")
    case (Inl e)
    with Cons.prems show ?thesis by simp
  next
    case k: (Inr k)
    show ?thesis
    proof (cases "k = PStr (keyword v)")
      case False
      with k Cons.prems Cons.IH [of b b'] show ?thesis by simp
    next
      case True
      show ?thesis
      proof (cases "dict_get fb (PStr ''feedback'')")
        case (Inl e)
        with k True Cons.prems show ?thesis by simp
      next
        case r: (Inr r)
        consider "r = PStr ''definitely''" | "r = PStr ''maybe''" | "r = PStr ''never''"
          | "r \<noteq> PStr ''definitely''" "r \<noteq> PStr ''maybe''" "r \<noteq> PStr ''never''"
          by blast
        then show ?thesis
        proof cases
          case 1
          with k True r Cons.prems Cons.IH [of "b + 3" "b' + 3"] show ?thesis by simp
        next
          case 2
          with k True r Cons.prems Cons.IH [of "b + 1" "b' + 1"] show ?thesis by simp
        next
          case 3
          with k True r Cons.prems Cons.IH [of 0 0] show ?thesis by simp
        next
          case 4
          with k True r Cons.prems Cons.IH [of b b'] show ?thesis by simp
        qed
      qed
    qed
  qed
qed

text \<open>
  C1. The weight of a candidate is the result of the fold over the rows of its keyword,
  started at 1, plus 2 when the candidate is recent and plus nothing otherwise; the bonus
  is added whatever the fold gave, and an error of the fold is the error of the weight. So
  a candidate whose fold result is 0, as after a \<^verbatim>\<open>never\<close> on its keyword, and that is
  recent has the weight 2.
\<close>

theorem video_weight_fold_plus_recency:
  "video_weight strptime now v fm =
     (case keyword_boost v (dict_values fm) 1 of
        Inl e \<Rightarrow> Inl e
      | Inr fold_result \<Rightarrow> Inr (fold_result + (if recent strptime now v then 2 else 0)))
   \<and> (keyword_boost v (dict_values fm) 1 = Inr 0 \<and> recent strptime now v
        \<longrightarrow> video_weight strptime now v fm = Inr 2)"
  by (simp add: video_weight_def recency_boost_eq split: sum.splits)

lemma sample_never_fold:
  "keyword_boost (sample_video ''x'' ''u1'' (Some ''20261103''))
     (dict_values [(PStr ''u0'', sample_row ''u0'' ''x'' ''never'')]) 1 = Inr 0"
  by (simp add: sample_video_def sample_row_def dict_values_def dict_get_def)

lemma sample_recent:
  "recent sample_strptime sample_now (sample_video ''x'' ''u1'' (Some ''20261103''))"
  by (simp add: recent_def sample_strptime_def sample_now_def sample_video_def timedelta_days_def)

theorem video_weight_fold_plus_recency_witness:
  "keyword_boost (sample_video ''x'' ''u1'' (Some ''20261103''))
     (dict_values [(PStr ''u0'', sample_row ''u0'' ''x'' ''never'')]) 1 = Inr 0
   \<and> recent sample_strptime sample_now (sample_video ''x'' ''u1'' (Some ''20261103''))
   \<and> video_weight sample_strptime sample_now (sample_video ''x'' ''u1'' (Some ''20261103''))
        [(PStr ''u0'', sample_row ''u0'' ''x'' ''never'')] = Inr 2"
  using video_weight_fold_plus_recency [of sample_strptime sample_now
      "sample_video ''x'' ''u1'' (Some ''20261103'')"
      "[(PStr ''u0'', sample_row ''u0'' ''x'' ''never'')]"]
    sample_never_fold sample_recent
  by simp

text \<open>
  C2, as the specification words it, fails: a \<^verbatim>\<open>never\<close> row of the candidate's keyword
  followed by a \<^verbatim>\<open>definitely\<close> row of the same keyword gives the fold result 3.
\<close>

theorem never_then_definitely_counterexample:
  "keyword_boost (sample_video ''x'' ''u1'' None)
     (dict_values [(PStr ''u2'', sample_row ''u2'' ''x'' ''never''),
                   (PStr ''u3'', sample_row ''u3'' ''x'' ''definitely'')]) 1 = Inr 3"
  by (simp add: sample_video_def sample_row_def dict_values_def dict_get_def)

text \<open>
  C2, amended. A \<^verbatim>\<open>never\<close> row of the candidate's keyword resets the running weight to 0
  at its place in the fold: when the rows before it fold without an error, the fold result
  of the whole memory is the fold of the rows after it, started from 0. Rows after it
  that boost the keyword count again.
\<close>

theorem never_resets_fold:
  assumes "dict_get r (PStr ''keyword'') = Inr (PStr (keyword v))"
    and "dict_get r (PStr ''feedback'') = Inr (PStr ''never'')"
    and "keyword_boost v (dict_values before) 1 = Inr w"
  shows "keyword_boost v (dict_values (before @ (l, r) # after)) 1
           = keyword_boost v (dict_values after) 0"
  using assms by (simp add: dict_values_def keyword_boost_append)

theorem never_resets_fold_witness:
  "dict_get (sample_row ''u2'' ''x'' ''never'') (PStr ''keyword'')
     = Inr (PStr (keyword (sample_video ''x'' ''u1'' None)))
   \<and> dict_get (sample_row ''u2'' ''x'' ''never'') (PStr ''feedback'') = Inr (PStr ''never'')
   \<and> keyword_boost (sample_video ''x'' ''u1'' None)
        (dict_values [(PStr ''u4'', sample_row ''u4'' ''x'' ''definitely'')]) 1 = Inr 4
   \<and> keyword_boost (sample_video ''x'' ''u1'' None)
        (dict_values ([(PStr ''u4'', sample_row ''u4'' ''x'' ''definitely'')]
           @ (PStr ''u2'', sample_row ''u2'' ''x'' ''never'')
           # [(PStr ''u3'', sample_row ''u3'' ''x'' ''maybe'')])) 1 = Inr 1"
  using never_resets_fold [of "sample_row ''u2'' ''x'' ''never''" "sample_video ''x'' ''u1'' None"
      "[(PStr ''u4'', sample_row ''u4'' ''x'' ''definitely'')]" 4 "PStr ''u2''"
      "[(PStr ''u3'', sample_row ''u3'' ''x'' ''maybe'')]"]
  by (simp add: sample_video_def sample_row_def dict_values_def dict_get_def)

text \<open>
  C3. Putting one more row into the memory, at any place, with the candidate's keyword and
  the rating \<^verbatim>\<open>definitely\<close>, never lowers the weight: when the weight without the row is
  \<open>w\<close>, the weight with it is computed too and is at least \<open>w\<close>.
\<close>

theorem definitely_never_lowers_weight:
  assumes "dict_get r (PStr ''keyword'') = Inr (PStr (keyword v))"
    and "dict_get r (PStr ''feedback'') = Inr (PStr ''definitely'')"
    and "video_weight strptime now v (before @ after) = Inr w"
  shows "\<exists>w'. video_weight strptime now v (before @ (l, r) # after) = Inr w' \<and> w \<le> w'"
proof -
  from assms(3) obtain a b where a: "keyword_boost v (dict_values before) 1 = Inr a"
    and b: "keyword_boost v (dict_values after) a = Inr b"
    and w: "w = recency_boost strptime now v b"
    by (auto simp: video_weight_def dict_values_def keyword_boost_append split: sum.splits)
  from keyword_boost_mono [OF b, of "a + 3"] obtain b'
    where b': "keyword_boost v (dict_values after) (a + 3) = Inr b'" "b \<le> b'" by auto
  from a b' assms(1,2)
  have "video_weight strptime now v (before @ (l, r) # after)
          = Inr (recency_boost strptime now v b')"
    by (simp add: video_weight_def dict_values_def keyword_boost_append)
  with w b'(2) show ?thesis by (simp add: recency_boost_eq)
qed

theorem definitely_never_lowers_weight_witness:
  "dict_get (sample_row ''u4'' ''x'' ''definitely'') (PStr ''keyword'')
     = Inr (PStr (keyword (sample_video ''x'' ''u1'' None)))
   \<and> dict_get (sample_row ''u4'' ''x'' ''definitely'') (PStr ''feedback'') = Inr (PStr ''definitely'')
   \<and> video_weight sample_strptime sample_now (sample_video ''x'' ''u1'' None)
        ([(PStr ''u2'', sample_row ''u2'' ''x'' ''never'')]
           @ [(PStr ''u3'', sample_row ''u3'' ''x'' ''maybe'')]) = Inr 1
   \<and> (\<exists>w'. video_weight sample_strptime sample_now (sample_video ''x'' ''u1'' None)
        ([(PStr ''u2'', sample_row ''u2'' ''x'' ''never'')]
           @ (PStr ''u4'', sample_row ''u4'' ''x'' ''definitely'')
           # [(PStr ''u3'', sample_row ''u3'' ''x'' ''maybe'')]) = Inr w' \<and> 1 \<le> w')"
  using definitely_never_lowers_weight [of "sample_row ''u4'' ''x'' ''definitely''"
      "sample_video ''x'' ''u1'' None" sample_strptime sample_now
      "[(PStr ''u2'', sample_row ''u2'' ''x'' ''never'')]"
      "[(PStr ''u3'', sample_row ''u3'' ''x'' ''maybe'')]" 1 "PStr ''u4''"]
  by (simp add: sample_video_def sample_row_def dict_values_def dict_get_def video_weight_def
      recency_boost_def)

section \<open>Properties of the draw and of \<^verbatim>\<open>pick_video\<close>\<close>

lemma length_accumulate_from: "length (accumulate_from t ws) = length ws"
  by (induction ws arbitrary: t) auto

lemma last_accumulate_from:
  "ws \<noteq> [] \<Longrightarrow> last (accumulate_from t ws) = t + sum_list ws"
proof (induction ws arbitrary: t)
  case Nil
  then show ?case by simp
next
  case (Cons w ws)
  show ?case
  proof (cases ws)
    case Nil
    then show ?thesis by simp
  next
    case (Cons x xs)
    with Cons.IH [of "t + w"] show ?thesis by simp
  qed
qed

lemma sum_list_pos:
  "ws \<noteq> [] \<Longrightarrow> \<forall>w \<in> set ws. (0::int) < w \<Longrightarrow> 0 < sum_list ws"
proof -
  assume ne: "ws \<noteq> []" and pos: "\<forall>w \<in> set ws. (0::int) < w"
  from pos have "0 \<le> sum_list (tl ws)"
    by (intro sum_list_nonneg) (auto dest: list.set_sel(2) [OF ne] simp: less_imp_le)
  moreover from ne pos have "0 < hd ws" by simp
  moreover from ne have "sum_list ws = hd ws + sum_list (tl ws)" by (cases ws) auto
  ultimately show ?thesis by simp
qed

lemma bisect_right_bounds:
  "lo \<le> hi \<Longrightarrow> hi \<le> length a \<Longrightarrow>
     \<exists>i. bisect_right a x lo hi = Inr i \<and> lo \<le> i \<and> i \<le> hi"
proof (induction a x lo hi rule: bisect_right.induct)
  case (1 a x lo hi)
  show ?case
  proof (cases "lo < hi")
    case False
    with "1.prems" show ?thesis by simp
  next
    case True
    define mid where "mid = (lo + hi) div 2"
    from True have m: "lo \<le> mid" "mid < hi" by (simp_all add: mid_def)
    with "1.prems" have ml: "mid < length a" by simp
    show ?thesis
    proof (cases "x < real_of_int (a ! mid)")
      case lt: True
      from "1.IH"(1) [OF True mid_def ml lt] m "1.prems"
      obtain i where "bisect_right a x lo mid = Inr i" "lo \<le> i" "i \<le> mid" by auto
      with True ml lt m show ?thesis
        by (subst bisect_right.simps) (auto simp: mid_def Let_def)
    next
      case ge: False
      from "1.IH"(2) [OF True mid_def ml ge] m "1.prems"
      obtain i where "bisect_right a x (mid + 1) hi = Inr i" "mid + 1 \<le> i" "i \<le> hi" by auto
      with True ml ge m show ?thesis
        by (subst bisect_right.simps) (auto simp: mid_def Let_def)
    qed
  qed
qed

lemma random_choices_member:
  assumes "length population = length weights" and "population \<noteq> []"
    and "\<forall>w \<in> set weights. 0 < w"
  shows "\<exists>x \<in> set population. random_choices population weights u = Inr x"
proof -
  let ?cum = "accumulate weights"
  let ?n = "length population"
  from assms have ne: "weights \<noteq> []" by auto
  have len: "length ?cum = ?n"
    using assms(1) by (simp add: accumulate_def length_accumulate_from)
  with assms(2) have cne: "?cum \<noteq> []" by auto
  have "last ?cum = sum_list weights"
    using ne by (simp add: accumulate_def last_accumulate_from)
  with sum_list_pos [OF ne assms(3)] have tot: "\<not> real_of_int (last ?cum) \<le> 0" by simp
  from assms(2) have "0 \<le> ?n - 1" "?n - 1 \<le> length ?cum" using len by simp_all
  from bisect_right_bounds [OF this, of "u * real_of_int (last ?cum)"]
  obtain i where i: "bisect_right ?cum (u * real_of_int (last ?cum)) 0 (?n - 1) = Inr i"
    "i \<le> ?n - 1" by auto
  with assms(2) have "i < ?n" by (cases population) auto
  with i len cne tot have "random_choices population weights u = Inr (population ! i)"
    by (simp add: random_choices_def Let_def)
  with \<open>i < ?n\<close> show ?thesis by auto
qed

lemma compute_weights_all2:
  "compute_weights strptime now cs fm = Inr ws \<Longrightarrow>
     list_all2 (\<lambda>v w. video_weight strptime now v fm = Inr w) cs ws"
  by (induction cs arbitrary: ws) (auto split: sum.splits)

lemma compute_weights_Inr_iff:
  "(\<exists>ws. compute_weights strptime now cs fm = Inr ws) \<longleftrightarrow>
     (\<forall>v \<in> set cs. \<exists>w. video_weight strptime now v fm = Inr w)"
  by (induction cs) (auto split: sum.splits)

lemma length_filter_zip_snd:
  "length cs = length ws \<Longrightarrow>
     length (map fst (filter (\<lambda>(v, w). P w) (zip cs ws))) = length (filter P ws)"
  by (induction cs ws rule: list_induct2) auto

lemma filter_zip_weight:
  "list_all2 Q cs ws \<Longrightarrow> c \<in> set (map fst (filter (\<lambda>(v, w). P w) (zip cs ws))) \<Longrightarrow>
     \<exists>w. c \<in> set cs \<and> Q c w \<and> P w"
  by (induction cs ws rule: list_all2_induct) (auto split: if_splits)

lemma filter_zip_empty_iff:
  "list_all2 Q cs ws \<Longrightarrow>
     map fst (filter (\<lambda>(v, w). P w) (zip cs ws)) = [] \<longleftrightarrow> (\<forall>w \<in> set ws. \<not> P w)"
  by (induction cs ws rule: list_all2_induct) auto

lemma list_all2_set1: "list_all2 Q cs ws \<Longrightarrow> v \<in> set cs \<Longrightarrow> \<exists>w \<in> set ws. Q v w"
  by (induction cs ws rule: list_all2_induct) auto

lemma list_all2_set2: "list_all2 Q cs ws \<Longrightarrow> w \<in> set ws \<Longrightarrow> \<exists>v \<in> set cs. Q v w"
  by (induction cs ws rule: list_all2_induct) auto

lemma pick_video_Some:
  assumes "pick_video strptime now videos fm u = Inr (Some c)"
  shows "c \<in> set videos \<and> \<not> dict_contains fm (PStr (link c))
           \<and> (\<exists>w. video_weight strptime now c fm = Inr w \<and> 0 < w)"
proof -
  define cands where "cands = filter (\<lambda>v. \<not> dict_contains fm (PStr (link v))) videos"
  from assms have ne: "cands \<noteq> []"
    by (auto simp: pick_video_def cands_def Let_def)
  with assms obtain ws where ws: "compute_weights strptime now cands fm = Inr ws"
    by (auto simp: pick_video_def cands_def Let_def split: sum.splits)
  define cands' where "cands' = map fst (filter (\<lambda>(v, w). 0 < w) (zip cands ws))"
  define ws' where "ws' = filter (\<lambda>w. 0 < w) ws"
  from assms ne ws have "random_choices cands' ws' u = Inr c" and ne': "cands' \<noteq> []"
    by (auto simp: pick_video_def cands_def [symmetric] cands'_def ws'_def Let_def
        split: sum.splits if_splits)
  note all2 = compute_weights_all2 [OF ws]
  then have "length cands = length ws" by (rule list_all2_lengthD)
  then have "length cands' = length ws'"
    unfolding cands'_def ws'_def by (rule length_filter_zip_snd)
  moreover have "\<forall>w \<in> set ws'. 0 < w" by (simp add: ws'_def)
  ultimately obtain x where "x \<in> set cands'" "random_choices cands' ws' u = Inr x"
    using random_choices_member [of cands' ws' u] ne' by blast
  with \<open>random_choices cands' ws' u = Inr c\<close> have "c \<in> set cands'" by simp
  from filter_zip_weight [OF all2 this [unfolded cands'_def]]
  show ?thesis by (auto simp: cands_def)
qed

lemma pick_video_None_iff:
  "pick_video strptime now videos fm u = Inr None \<longleftrightarrow>
     (\<forall>v \<in> set videos. dict_contains fm (PStr (link v)) \<or> video_weight strptime now v fm = Inr 0)"
proof -
  define cands where "cands = filter (\<lambda>v. \<not> dict_contains fm (PStr (link v))) videos"
  have rhs: "(\<forall>v \<in> set videos. dict_contains fm (PStr (link v)) \<or> video_weight strptime now v fm = Inr 0)
      \<longleftrightarrow> (\<forall>v \<in> set cands. video_weight strptime now v fm = Inr 0)"
    by (auto simp: cands_def)
  show ?thesis
  proof (cases "cands = []")
    case True
    then show ?thesis unfolding rhs by (simp add: pick_video_def cands_def [symmetric])
  next
    case ne: False
    show ?thesis
    proof (cases "compute_weights strptime now cands fm")
      case (Inl e)
      then have "\<not> (\<forall>v \<in> set cands. \<exists>w. video_weight strptime now v fm = Inr w)"
        using compute_weights_Inr_iff [of strptime now cands fm] by simp
      then have "\<not> (\<forall>v \<in> set cands. video_weight strptime now v fm = Inr 0)" by blast
      with Inl ne show ?thesis
        unfolding rhs by (simp add: pick_video_def cands_def [symmetric])
    next
      case (Inr ws)
      define cands' where "cands' = map fst (filter (\<lambda>(v, w). 0 < w) (zip cands ws))"
      define ws' where "ws' = filter (\<lambda>w. 0 < w) ws"
      note all2 = compute_weights_all2 [OF Inr]
      have empty: "cands' = [] \<longleftrightarrow> (\<forall>w \<in> set ws. \<not> 0 < w)"
        unfolding cands'_def by (rule filter_zip_empty_iff [OF all2])
      show ?thesis
      proof (cases "cands' = []")
        case True
        have "video_weight strptime now v fm = Inr 0" if "v \<in> set cands" for v
        proof -
          from list_all2_set1 [OF all2 that] obtain w
            where w: "w \<in> set ws" "video_weight strptime now v fm = Inr w" by blast
          from w(2) have "0 \<le> w" by (rule video_weight_nonneg)
          moreover from True empty w(1) have "\<not> 0 < w" by blast
          ultimately show ?thesis using w(2) by simp
        qed
        with True Inr ne show ?thesis
          unfolding rhs by (simp add: pick_video_def cands_def [symmetric] cands'_def Let_def)
      next
        case ne': False
        have "length cands = length ws" using all2 by (rule list_all2_lengthD)
        then have "length cands' = length ws'"
          unfolding cands'_def ws'_def by (rule length_filter_zip_snd)
        moreover have "\<forall>w \<in> set ws'. 0 < w" by (simp add: ws'_def)
        ultimately obtain x where "random_choices cands' ws' u = Inr x"
          using random_choices_member [of cands' ws' u] ne' by blast
        with ne' Inr ne have lhs: "pick_video strptime now videos fm u \<noteq> Inr None"
          by (simp add: pick_video_def cands_def [symmetric] cands'_def [symmetric]
              ws'_def [symmetric] Let_def)
        from ne' empty obtain w where w: "w \<in> set ws" "0 < w" by blast
        from list_all2_set2 [OF all2 w(1)] obtain v
          where "v \<in> set cands" "video_weight strptime now v fm = Inr w" by blast
        with w(2) have "\<not> (\<forall>v \<in> set cands. video_weight strptime now v fm = Inr 0)"
          by (metis Inr_inject less_irrefl)
        with lhs show ?thesis unfolding rhs by simp
      qed
    qed
  qed
qed

lemma sample_contains: "dict_contains sample_memory (PStr (link (sample_video ''x'' ''u1'' None)))"
  by (simp add: sample_memory_def sample_video_def dict_contains_def)

lemma sample_weight_zero:
  "video_weight sample_strptime sample_now (sample_video ''x'' ''u2'' None) sample_memory = Inr 0"
  by (simp add: sample_memory_def sample_video_def sample_row_def dict_values_def dict_get_def
      video_weight_def recency_boost_def)

lemma sample_pick:
  "pick_video sample_strptime sample_now
     [sample_video ''x'' ''u1'' None, sample_video ''y'' ''u3'' None] sample_memory (1 / 2)
   = Inr (Some (sample_video ''y'' ''u3'' None))"
  by (simp add: pick_video_def sample_memory_def sample_video_def sample_row_def dict_values_def
      dict_get_def dict_contains_def video_weight_def recency_boost_def random_choices_def
      accumulate_def Let_def)

lemma sample_pick_none:
  "pick_video sample_strptime sample_now
     [sample_video ''x'' ''u1'' None, sample_video ''x'' ''u2'' None] sample_memory (1 / 2)
   = Inr None"
  by (simp add: pick_video_def sample_memory_def sample_video_def sample_row_def dict_values_def
      dict_get_def dict_contains_def video_weight_def recency_boost_def random_choices_def
      accumulate_def Let_def)

text \<open>
  C5. A candidate whose link is a key of the feedback memory is never the video that
  \<^verbatim>\<open>pick_video\<close> returns, whatever the list of videos, the clock and the draw.
\<close>

theorem rated_link_never_returned:
  "dict_contains fm (PStr (link c)) \<Longrightarrow> pick_video strptime now videos fm u \<noteq> Inr (Some c)"
  using pick_video_Some [of strptime now videos fm u c] by blast

theorem rated_link_never_returned_witness:
  "dict_contains sample_memory (PStr (link (sample_video ''x'' ''u1'' None)))
   \<and> pick_video sample_strptime sample_now
        [sample_video ''x'' ''u1'' None, sample_video ''y'' ''u3'' None] sample_memory (1 / 2)
      \<noteq> Inr (Some (sample_video ''x'' ''u1'' None))
   \<and> pick_video sample_strptime sample_now
        [sample_video ''x'' ''u1'' None, sample_video ''y'' ''u3'' None] sample_memory (1 / 2)
      = Inr (Some (sample_video ''y'' ''u3'' None))"
  using rated_link_never_returned [of sample_memory "sample_video ''x'' ''u1'' None"
      sample_strptime sample_now
      "[sample_video ''x'' ''u1'' None, sample_video ''y'' ''u3'' None]" "1 / 2"]
    sample_contains sample_pick
  by simp

text \<open>
  C6. \<^verbatim>\<open>pick_video\<close> returns \<^verbatim>\<open>None\<close> exactly when every video either has its link in the
  feedback memory or has the weight 0, so that nothing is left after the two filters. In
  particular it returns \<^verbatim>\<open>None\<close> when every link is in the memory, and it never returns a
  candidate of weight 0.
\<close>

theorem pick_video_none_exactly:
  "(pick_video strptime now videos fm u = Inr None \<longleftrightarrow>
      (\<forall>v \<in> set videos. dict_contains fm (PStr (link v))
                            \<or> video_weight strptime now v fm = Inr 0))
   \<and> ((\<forall>v \<in> set videos. dict_contains fm (PStr (link v)))
        \<longrightarrow> pick_video strptime now videos fm u = Inr None)
   \<and> (video_weight strptime now c fm = Inr 0
        \<longrightarrow> pick_video strptime now videos fm u \<noteq> Inr (Some c))"
proof (intro conjI impI)
  show "pick_video strptime now videos fm u = Inr None \<longleftrightarrow>
      (\<forall>v \<in> set videos. dict_contains fm (PStr (link v))
                            \<or> video_weight strptime now v fm = Inr 0)"
    by (rule pick_video_None_iff)
next
  assume "\<forall>v \<in> set videos. dict_contains fm (PStr (link v))"
  then show "pick_video strptime now videos fm u = Inr None"
    by (simp add: pick_video_None_iff)
next
  assume "video_weight strptime now c fm = Inr 0"
  then show "pick_video strptime now videos fm u \<noteq> Inr (Some c)"
    using pick_video_Some [of strptime now videos fm u c] by auto
qed

theorem pick_video_none_exactly_witness:
  "dict_contains sample_memory (PStr (link (sample_video ''x'' ''u1'' None)))
   \<and> video_weight sample_strptime sample_now (sample_video ''x'' ''u2'' None) sample_memory = Inr 0
   \<and> pick_video sample_strptime sample_now
        [sample_video ''x'' ''u1'' None, sample_video ''x'' ''u2'' None] sample_memory (1 / 2)
      = Inr None
   \<and> pick_video sample_strptime sample_now [sample_video ''x'' ''u1'' None] sample_memory (1 / 2)
      = Inr None
   \<and> pick_video sample_strptime sample_now
        [sample_video ''x'' ''u2'' None, sample_video ''y'' ''u3'' None] sample_memory (1 / 2)
      \<noteq> Inr (Some (sample_video ''x'' ''u2'' None))"
  using pick_video_none_exactly [of sample_strptime sample_now
      "[sample_video ''x'' ''u1'' None, sample_video ''x'' ''u2'' None]" sample_memory "1 / 2"
      "sample_video ''x'' ''u2'' None"]
    pick_video_none_exactly [of sample_strptime sample_now
      "[sample_video ''x'' ''u1'' None]" sample_memory "1 / 2" "sample_video ''x'' ''u2'' None"]
    pick_video_none_exactly [of sample_strptime sample_now
      "[sample_video ''x'' ''u2'' None, sample_video ''y'' ''u3'' None]" sample_memory "1 / 2"
      "sample_video ''x'' ''u2'' None"]
    sample_contains sample_weight_zero
  by simp

section \<open>Properties of the feedback file\<close>



lemma dict_contains_iff: "dict_contains d k \<longleftrightarrow> map_of d k \<noteq> None"
  by (simp add: dict_contains_def map_of_eq_None_iff)




















section \<open>Properties of the session loop\<close>














section \<open>\<^verbatim>\<open>pick_video\<close> and the objects it is given\<close>

lemma lookup_append_old: "r < length h \<Longrightarrow> lookup (h @ ext) r = lookup h r"
  by (simp add: lookup_def nth_append)

lemma lookup_SomeD: "lookup h r = Some ob \<Longrightarrow> r < length h \<and> h ! r = ob"
  by (simp add: lookup_def split: if_splits)

lemma weights_loop_spec:
  assumes "lookup h memory_r = Some (Dict fm)" and "lookup h weights_r = Some (IntList ws0)"
  shows "\<exists>ws'. snd (weights_loop strptime now cs memory_r weights_r h) = h[weights_r := IntList ws']
           \<and> (case compute_weights strptime now cs fm of
                 Inl e \<Rightarrow> fst (weights_loop strptime now cs memory_r weights_r h) = Some e
               | Inr ws \<Rightarrow> fst (weights_loop strptime now cs memory_r weights_r h) = None
                            \<and> ws' = ws0 @ ws)"
  using assms
proof (induction cs arbitrary: h ws0)
  case Nil
  from lookup_SomeD [OF Nil(2)] have "h[weights_r := IntList ws0] = h"
    by (simp add: list_update_same_conv)
  then show ?case by (intro exI [of _ ws0]) simp
next
  case (Cons v vs)
  from lookup_SomeD [OF Cons.prems(1)] lookup_SomeD [OF Cons.prems(2)]
  have bounds: "memory_r < length h" "weights_r < length h" and ne: "memory_r \<noteq> weights_r"
    by auto
  show ?case
  proof (cases "video_weight strptime now v fm")
    case (Inl e)
    from lookup_SomeD [OF Cons.prems(2)] have "h[weights_r := IntList ws0] = h"
      by (simp add: list_update_same_conv)
    with Inl Cons.prems(1) show ?thesis by (intro exI [of _ ws0]) simp
  next
    case (Inr base)
    let ?h = "list_append h weights_r base"
    have h: "?h = h[weights_r := IntList (ws0 @ [base])]"
      using Cons.prems(2) by (simp add: list_append_def)
    have m: "lookup ?h memory_r = Some (Dict fm)"
      using Cons.prems(1) bounds ne by (simp add: h lookup_def)
    have w: "lookup ?h weights_r = Some (IntList (ws0 @ [base]))"
      using bounds by (simp add: h lookup_def)
    from Cons.IH [OF m w] obtain ws'
      where ws': "snd (weights_loop strptime now vs memory_r weights_r ?h) = ?h[weights_r := IntList ws']"
        "(case compute_weights strptime now vs fm of
            Inl e \<Rightarrow> fst (weights_loop strptime now vs memory_r weights_r ?h) = Some e
          | Inr ws \<Rightarrow> fst (weights_loop strptime now vs memory_r weights_r ?h) = None
                       \<and> ws' = (ws0 @ [base]) @ ws)"
      by blast
    have step: "weights_loop strptime now (v # vs) memory_r weights_r h
        = weights_loop strptime now vs memory_r weights_r ?h"
      using Inr Cons.prems(1) by simp
    from ws' show ?thesis
      unfolding step by (intro exI [of _ ws']) (simp add: h Inr split: sum.splits)
  qed
qed


lemma pick_video_store_spec:
  assumes v: "lookup h videos_r = Some (VideoList videos)"
    and m: "lookup h memory_r = Some (Dict fm)"
  shows "fst (pick_video_store strptime now h videos_r memory_r u) = pick_video strptime now videos fm u
     \<and> (\<exists>ext. snd (pick_video_store strptime now h videos_r memory_r u) = h @ ext)"
proof -
  define cands where "cands = filter (\<lambda>v. \<not> dict_contains fm (PStr (link v))) videos"
  let ?h2 = "h @ [VideoList cands, IntList []]"
  let ?wr = "Suc (length h)"
  show ?thesis
  proof (cases "cands = []")
    case True
    with v m show ?thesis
      by (simp add: pick_video_store_def pick_video_def alloc_def cands_def [symmetric])
  next
    case ne: False
    from lookup_SomeD [OF m] have mb: "memory_r < length h" by simp
    then have m2: "lookup ?h2 memory_r = Some (Dict fm)"
      using m by (simp add: lookup_def nth_append)
    have w2: "lookup ?h2 ?wr = Some (IntList [])"
      by (simp add: lookup_def nth_append)
    from weights_loop_spec [OF m2 w2, of strptime now cands] obtain ws'
      where h3: "snd (weights_loop strptime now cands memory_r ?wr ?h2) = ?h2[?wr := IntList ws']"
        and r: "(case compute_weights strptime now cands fm of
                  Inl e \<Rightarrow> fst (weights_loop strptime now cands memory_r ?wr ?h2) = Some e
                | Inr ws \<Rightarrow> fst (weights_loop strptime now cands memory_r ?wr ?h2) = None
                             \<and> ws' = [] @ ws)"
      by blast
    have upd: "?h2[?wr := IntList ws'] = h @ [VideoList cands, IntList ws']"
      by (simp add: list_update_append)
    obtain res h3' where wl: "weights_loop strptime now cands memory_r ?wr ?h2 = (res, h3')"
      by (cases "weights_loop strptime now cands memory_r ?wr ?h2")
    with h3 upd have h3': "h3' = h @ [VideoList cands, IntList ws']" by simp
    show ?thesis
    proof (cases "compute_weights strptime now cands fm")
      case (Inl e)
      with r wl have "res = Some e" by simp
      with wl h3' Inl ne v m show ?thesis
        by (simp add: pick_video_store_def alloc_def pick_video_def cands_def [symmetric])
    next
      case (Inr ws)
      with r wl have res: "res = None" and ws': "ws' = ws" by simp_all
      have lk: "lookup h3' ?wr = Some (IntList ws)"
        by (simp add: h3' ws' lookup_def nth_append)
      from wl res lk Inr ne v m h3' show ?thesis
        by (simp add: pick_video_store_def alloc_def pick_video_def cands_def [symmetric] Let_def
            split: sum.splits)
    qed
  qed
qed

text \<open>
  C10. \<^verbatim>\<open>pick_video\<close> changes neither of its arguments. Run on a store in which
  \<open>videos_r\<close> refers to the list of videos and \<open>memory_r\<close> to the feedback memory, it
  leaves a store in which both references hold what they held, the list with the same
  videos in the same order; every object of the store it was given is unchanged, and the
  objects it made come after them. What it returns is what the function on values returns.
\<close>

theorem pick_video_leaves_arguments:
  assumes "lookup h videos_r = Some (VideoList videos)"
    and "lookup h memory_r = Some (Dict fm)"
  shows "lookup (snd (pick_video_store strptime now h videos_r memory_r u)) videos_r
           = Some (VideoList videos)
     \<and> lookup (snd (pick_video_store strptime now h videos_r memory_r u)) memory_r
           = Some (Dict fm)
     \<and> take (length h) (snd (pick_video_store strptime now h videos_r memory_r u)) = h
     \<and> fst (pick_video_store strptime now h videos_r memory_r u)
           = pick_video strptime now videos fm u"
proof -
  from pick_video_store_spec [OF assms, of strptime now u] obtain ext
    where ext: "snd (pick_video_store strptime now h videos_r memory_r u) = h @ ext"
      and res: "fst (pick_video_store strptime now h videos_r memory_r u)
                  = pick_video strptime now videos fm u"
    by blast
  from lookup_SomeD [OF assms(1)] lookup_SomeD [OF assms(2)]
  have "videos_r < length h" "memory_r < length h" by simp_all
  with assms ext res show ?thesis by (simp add: lookup_append_old)
qed

theorem pick_video_leaves_arguments_witness:
  "lookup sample_store 0
     = Some (VideoList [sample_video ''x'' ''u1'' None, sample_video ''y'' ''u3'' None])
   \<and> lookup sample_store 1 = Some (Dict sample_memory)
   \<and> lookup (snd (pick_video_store sample_strptime sample_now sample_store 0 1 (1 / 2))) 0
       = Some (VideoList [sample_video ''x'' ''u1'' None, sample_video ''y'' ''u3'' None])
   \<and> lookup (snd (pick_video_store sample_strptime sample_now sample_store 0 1 (1 / 2))) 1
       = Some (Dict sample_memory)
   \<and> fst (pick_video_store sample_strptime sample_now sample_store 0 1 (1 / 2))
       = Inr (Some (sample_video ''y'' ''u3'' None))"
proof -
  have v: "lookup sample_store 0
     = Some (VideoList [sample_video ''x'' ''u1'' None, sample_video ''y'' ''u3'' None])"
    by (simp add: sample_store_def lookup_def)
  have m: "lookup sample_store 1 = Some (Dict sample_memory)"
    by (simp add: sample_store_def lookup_def)
  from pick_video_leaves_arguments [OF v m, of sample_strptime sample_now "1 / 2"] v m sample_pick
  show ?thesis by simp
qed

end
